theory Spec2Isabelle
  imports Main
begin

section \<open>Values, errors and the log\<close>

text \<open>
  The module \<^verbatim>\<open>brave/core/api/model.py\<close> declares five document classes and the
  enable/disable methods of the three ban classes. References to other documents are
  object identifiers; a timestamp is a number of microseconds, the resolution of
  Python's \<^verbatim>\<open>datetime\<close>.
\<close>

type_synonym objid = nat

type_synonym datetime = int

text \<open>
  The acting user comes from \<^verbatim>\<open>brave.core.account.model\<close>, which is outside this
  module; the methods read only its \<^verbatim>\<open>username\<close>.
\<close>

record User =
  username :: string

text \<open>The values an attribute read can yield.\<close>

datatype pyval = PNone | PBool bool | PStr string | PRef objid | PDate datetime

definition opt_ref :: "objid option \<Rightarrow> pyval" where
  "opt_ref r = (case r of None \<Rightarrow> PNone | Some i \<Rightarrow> PRef i)"

definition opt_str :: "string option \<Rightarrow> pyval" where
  "opt_str s = (case s of None \<Rightarrow> PNone | Some v \<Rightarrow> PStr v)"

text \<open>
  Exceptions are values. \<open>AttributeError\<close> carries the name of the attribute that did
  not resolve.
\<close>

datatype error = AttributeError string | ValidationError "string list" | DoesNotExist

text \<open>
  The module logger. Every audit event of this module is one \<^verbatim>\<open>log.info\<close> call;
  the log is the list of records emitted so far, oldest first.
\<close>

datatype log_record = INFO string

text \<open>
  A method returns nothing; it mutates its receiver in place and may raise. Its model
  returns the outcome (\<open>Inr ()\<close> for a normal return, \<open>Inl e\<close> for a raise), the
  receiver as the call leaves it, and the log as the call leaves it. After a raise the
  receiver keeps every write made before the raise.
\<close>

type_synonym 'a outcome = "(error + unit) \<times> 'a \<times> log_record list"

text \<open>
  The arguments of a call are evaluated left to right; the first read that raises ends
  the evaluation.
\<close>

fun eval_args :: "(error + pyval) list \<Rightarrow> error + pyval list" where
  "eval_args [] = Inr []"
| "eval_args (Inl e # rest) = Inl e"
| "eval_args (Inr v # rest) =
     (case eval_args rest of Inl e \<Rightarrow> Inl e | Inr vs \<Rightarrow> Inr (v # vs))"

text \<open>
  Every message is built as \<^verbatim>\<open>"...%s...".format((a, b, c))\<close>. The templates of this
  module hold percent directives and no brace, so \<^verbatim>\<open>str.format\<close> finds no
  replacement field: it ignores its one tuple argument and returns the template as it
  is. The arguments are still evaluated first.
\<close>

definition str_format :: "string \<Rightarrow> pyval list \<Rightarrow> string" where
  "str_format template args = template"

section \<open>CharacterBan\<close>

text \<open>
  The class declares \<^verbatim>\<open>character\<close> (required), \<^verbatim>\<open>date\<close>, \<^verbatim>\<open>reason\<close> and
  \<^verbatim>\<open>_enabled\<close> (default true). It declares neither \<^verbatim>\<open>id\<close> nor \<^verbatim>\<open>host\<close>.

  Its methods read \<^verbatim>\<open>self.id\<close>. What that read yields is decided by the base class
  \<^verbatim>\<open>EmbeddedDocument\<close> of the document library, which is outside this module, so the
  record carries the answer: \<open>cb_id = Some i\<close> when the read yields i, \<open>cb_id = None\<close>
  when the attribute does not resolve and the read raises \<^verbatim>\<open>AttributeError\<close>. The
  library gives an embedded document no \<^verbatim>\<open>id\<close>: an entry as the program builds it
  has \<open>cb_id = None\<close>. The general results below hold for every value of the field.
\<close>

record CharacterBan =
  cb_character :: "objid option"
  cb_date :: datetime
  cb_reason :: "string option"
  cb_enabled :: bool
  cb_id :: "objid option"

definition CharacterBan_getattr :: "CharacterBan \<Rightarrow> string \<Rightarrow> error + pyval" where
  "CharacterBan_getattr self name =
     (if name = ''character'' then Inr (opt_ref (cb_character self))
      else if name = ''date'' then Inr (PDate (cb_date self))
      else if name = ''reason'' then Inr (opt_str (cb_reason self))
      else if name = ''_enabled'' then Inr (PBool (cb_enabled self))
      else if name = ''id'' then
        (case cb_id self of None \<Rightarrow> Inl (AttributeError ''id'') | Some i \<Rightarrow> Inr (PRef i))
      else Inl (AttributeError name))"

definition CharacterBan_enable :: "User \<Rightarrow> CharacterBan \<Rightarrow> log_record list \<Rightarrow> CharacterBan outcome" where
  "CharacterBan_enable user self lg =
     (if \<not> cb_enabled self then
        (case eval_args [Inr (PStr (username user)),
                         CharacterBan_getattr self ''character'',
                         CharacterBan_getattr self ''id''] of
           Inl e \<Rightarrow> (Inl e, self, lg)
         | Inr args \<Rightarrow>
             (Inr (), self\<lparr>cb_enabled := True\<rparr>,
              lg @ [INFO (str_format ''User %s enabled CharacterBan against %s (%s).'' args)]))
      else (Inr (), self, lg))"

text \<open>
  \<^verbatim>\<open>CharacterBan.disable\<close> builds its message from \<^verbatim>\<open>self.host\<close>, as
  \<^verbatim>\<open>IPBan.disable\<close> does.
\<close>

definition CharacterBan_disable :: "User \<Rightarrow> CharacterBan \<Rightarrow> log_record list \<Rightarrow> CharacterBan outcome" where
  "CharacterBan_disable user self lg =
     (if cb_enabled self then
        (case eval_args [Inr (PStr (username user)),
                         CharacterBan_getattr self ''host'',
                         CharacterBan_getattr self ''id''] of
           Inl e \<Rightarrow> (Inl e, self, lg)
         | Inr args \<Rightarrow>
             (Inr (), self\<lparr>cb_enabled := False\<rparr>,
              lg @ [INFO (str_format ''User %s disabled ban against %s (%s).'' args)]))
      else (Inr (), self, lg))"

section \<open>IPBan\<close>

text \<open>
  The class declares \<^verbatim>\<open>host\<close> (required), \<^verbatim>\<open>date\<close>, \<^verbatim>\<open>reason\<close> and
  \<^verbatim>\<open>_enabled\<close> (default true); \<open>ip_id\<close> is the read of \<^verbatim>\<open>self.id\<close>, as for
  \<open>CharacterBan\<close>.
\<close>

record IPBan =
  ip_host :: "string option"
  ip_date :: datetime
  ip_reason :: "string option"
  ip_enabled :: bool
  ip_id :: "objid option"

definition IPBan_getattr :: "IPBan \<Rightarrow> string \<Rightarrow> error + pyval" where
  "IPBan_getattr self name =
     (if name = ''host'' then Inr (opt_str (ip_host self))
      else if name = ''date'' then Inr (PDate (ip_date self))
      else if name = ''reason'' then Inr (opt_str (ip_reason self))
      else if name = ''_enabled'' then Inr (PBool (ip_enabled self))
      else if name = ''id'' then
        (case ip_id self of None \<Rightarrow> Inl (AttributeError ''id'') | Some i \<Rightarrow> Inr (PRef i))
      else Inl (AttributeError name))"

definition IPBan_enable :: "User \<Rightarrow> IPBan \<Rightarrow> log_record list \<Rightarrow> IPBan outcome" where
  "IPBan_enable user self lg =
     (if \<not> ip_enabled self then
        (case eval_args [Inr (PStr (username user)),
                         IPBan_getattr self ''host'',
                         IPBan_getattr self ''id''] of
           Inl e \<Rightarrow> (Inl e, self, lg)
         | Inr args \<Rightarrow>
             (Inr (), self\<lparr>ip_enabled := True\<rparr>,
              lg @ [INFO (str_format ''User %s enabled IPban against %s (%s).'' args)]))
      else (Inr (), self, lg))"

definition IPBan_disable :: "User \<Rightarrow> IPBan \<Rightarrow> log_record list \<Rightarrow> IPBan outcome" where
  "IPBan_disable user self lg =
     (if ip_enabled self then
        (case eval_args [Inr (PStr (username user)),
                         IPBan_getattr self ''host'',
                         IPBan_getattr self ''id''] of
           Inl e \<Rightarrow> (Inl e, self, lg)
         | Inr args \<Rightarrow>
             (Inr (), self\<lparr>ip_enabled := False\<rparr>,
              lg @ [INFO (str_format ''User %s disabled ban against %s (%s).'' args)]))
      else (Inr (), self, lg))"

section \<open>Ban\<close>

text \<open>
  A top-level document: the embedded lists \<^verbatim>\<open>characters\<close> and \<^verbatim>\<open>IPs\<close>, the
  flag \<^verbatim>\<open>_enabled\<close> (default true) and the required \<^verbatim>\<open>creator\<close>,
  \<^verbatim>\<open>charCreator\<close> and \<^verbatim>\<open>reason\<close>. Its \<^verbatim>\<open>id\<close> is the primary key of the
  document, \<^verbatim>\<open>None\<close> until the first save: the read always resolves.
\<close>

record Ban =
  ban_characters :: "CharacterBan list"
  ban_IPs :: "IPBan list"
  ban_enabled :: bool
  ban_creator :: "objid option"
  ban_charCreator :: "objid option"
  ban_reason :: "string option"
  ban_id :: "objid option"

text \<open>
  \<^verbatim>\<open>for b in xs: b.m(user)\<close>: the method runs on each element in order; a raise ends
  the loop and leaves the elements after it untouched.
\<close>

fun for_each :: "('a \<Rightarrow> log_record list \<Rightarrow> 'a outcome) \<Rightarrow> 'a list \<Rightarrow> log_record list \<Rightarrow> 'a list outcome" where
  "for_each m [] lg = (Inr (), [], lg)"
| "for_each m (b # bs) lg =
     (case m b lg of
        (Inl e, b', lg') \<Rightarrow> (Inl e, b' # bs, lg')
      | (Inr u, b', lg') \<Rightarrow>
          (case for_each m bs lg' of (r, bs', lg'') \<Rightarrow> (r, b' # bs', lg'')))"

definition Ban_enable :: "User \<Rightarrow> Ban \<Rightarrow> log_record list \<Rightarrow> Ban outcome" where
  "Ban_enable user self lg =
     (let (self1, lg1) =
            (if \<not> ban_enabled self then
               (self\<lparr>ban_enabled := True\<rparr>,
                lg @ [INFO (str_format ''User %s enabled ban %s.''
                              [PStr (username user), opt_ref (ban_id self)])])
             else (self, lg))
      in case for_each (CharacterBan_enable user) (ban_characters self1) lg1 of
           (Inl e, cs, lg2) \<Rightarrow> (Inl e, self1\<lparr>ban_characters := cs\<rparr>, lg2)
         | (Inr u, cs, lg2) \<Rightarrow>
             (case for_each (IPBan_enable user) (ban_IPs self1) lg2 of
                (r, ips, lg3) \<Rightarrow> (r, self1\<lparr>ban_characters := cs, ban_IPs := ips\<rparr>, lg3)))"

definition Ban_disable :: "User \<Rightarrow> Ban \<Rightarrow> log_record list \<Rightarrow> Ban outcome" where
  "Ban_disable user self lg =
     (let (self1, lg1) =
            (if ban_enabled self then
               (self\<lparr>ban_enabled := False\<rparr>,
                lg @ [INFO (str_format ''User %s disabled ban %s.''
                              [PStr (username user), opt_ref (ban_id self)])])
             else (self, lg))
      in case for_each (CharacterBan_disable user) (ban_characters self1) lg1 of
           (Inl e, cs, lg2) \<Rightarrow> (Inl e, self1\<lparr>ban_characters := cs\<rparr>, lg2)
         | (Inr u, cs, lg2) \<Rightarrow>
             (case for_each (IPBan_disable user) (ban_IPs self1) lg2 of
                (r, ips, lg3) \<Rightarrow> (r, self1\<lparr>ban_characters := cs, ban_IPs := ips\<rparr>, lg3)))"

section \<open>Required fields\<close>

text \<open>
  Modelled from the spec: the validation at creation time. It is done by the document
  library when a document is saved, and neither that code nor a caller of it is in
  this module; the declarations it reads are.
  The classes declare \<^verbatim>\<open>required=True\<close> on \<^verbatim>\<open>CharacterBan.character\<close>,
  \<^verbatim>\<open>IPBan.host\<close>, \<^verbatim>\<open>Ban.creator\<close>, \<^verbatim>\<open>Ban.charCreator\<close> and
  \<^verbatim>\<open>Ban.reason\<close>, and on no other field. The document library reads these
  declarations when a document is validated, which it does before it writes one: a
  required field whose value is \<^verbatim>\<open>None\<close> is an error, the documents embedded in a
  list field are validated with their owner, a value of a field declared with
  \<^verbatim>\<open>choices\<close> must be one of them, and a document with an error raises
  \<^verbatim>\<open>ValidationError\<close> and is not written. Each function below lists the fields
  in error, in the order of declaration.
\<close>

definition CharacterBan_validate :: "CharacterBan \<Rightarrow> string list" where
  "CharacterBan_validate c =
     (if cb_character c = None then [''character''] else []) @
     (case cb_reason c of
        None \<Rightarrow> []
      | Some v \<Rightarrow> if v \<in> set [''direct'', ''account'', ''key''] then [] else [''reason''])"

definition IPBan_validate :: "IPBan \<Rightarrow> string list" where
  "IPBan_validate i =
     (if ip_host i = None then [''host''] else []) @
     (case ip_reason i of
        None \<Rightarrow> []
      | Some v \<Rightarrow> if v \<in> set [''direct'', ''account''] then [] else [''reason''])"

definition Ban_validate :: "Ban \<Rightarrow> string list" where
  "Ban_validate b =
     concat (map CharacterBan_validate (ban_characters b)) @
     concat (map IPBan_validate (ban_IPs b)) @
     (if ban_creator b = None then [''creator''] else []) @
     (if ban_charCreator b = None then [''charCreator''] else []) @
     (if ban_reason b = None then [''reason''] else [])"

text \<open>
  Creating a ban is saving a new document: \<open>Inl\<close> the validation error, or \<open>Inr\<close>
  the record that is written.
\<close>

definition Ban_save :: "Ban \<Rightarrow> error + Ban" where
  "Ban_save b = (case Ban_validate b of [] \<Rightarrow> Inr b | e # es \<Rightarrow> Inl (ValidationError (e # es)))"

section \<open>AuthenticationBlacklist\<close>

text \<open>
  Four optional string fields and the creator; the class has no method.
\<close>

record AuthenticationBlacklist =
  bl_scheme :: "string option"
  bl_protocol :: "string option"
  bl_domain :: "string option"
  bl_port :: "string option"
  bl_creator :: "objid option"

text \<open>The endpoint a connection comes from: every part is known.\<close>

record endpoint =
  ep_scheme :: string
  ep_protocol :: string
  ep_domain :: string
  ep_port :: string

text \<open>
  Modelled from the spec: the matching of a candidate endpoint against a blacklist
  entry, which the enforcement code outside this module performs. A populated field of
  the entry must equal the candidate's; a field that is not populated matches any value.
\<close>

definition field_matches :: "string option \<Rightarrow> string \<Rightarrow> bool" where
  "field_matches pattern v = (case pattern of None \<Rightarrow> True | Some p \<Rightarrow> p = v)"

definition blacklist_matches :: "AuthenticationBlacklist \<Rightarrow> endpoint \<Rightarrow> bool" where
  "blacklist_matches e c =
     (field_matches (bl_scheme e) (ep_scheme c) \<and>
      field_matches (bl_protocol e) (ep_protocol c) \<and>
      field_matches (bl_domain e) (ep_domain c) \<and>
      field_matches (bl_port e) (ep_port c))"

section \<open>AuthenticationRequest\<close>

record AuthenticationRequest =
  ar_application :: "objid option"
  ar_user :: "objid option"
  ar_grant :: "objid option"
  ar_success :: "string option"
  ar_failure :: "string option"
  ar_expires :: datetime

text \<open>\<^verbatim>\<open>timedelta(minutes=m)\<close>, in microseconds.\<close>

definition timedelta_minutes :: "int \<Rightarrow> int" where
  "timedelta_minutes m = m * 60 * 1000000"

text \<open>
  The default of \<^verbatim>\<open>expires\<close>:
  \<^verbatim>\<open>lambda: datetime.utcnow() + timedelta(minutes=10)\<close>, with the clock's reading
  as its argument.
\<close>

definition expires_default :: "datetime \<Rightarrow> datetime" where
  "expires_default utcnow = utcnow + timedelta_minutes 10"

text \<open>
  A request made at the start of a handshake: the application and the two URLs are
  given, \<^verbatim>\<open>user\<close> and \<^verbatim>\<open>grant\<close> have no default and stay unset, and
  \<^verbatim>\<open>expires\<close> takes its default.
\<close>

definition AuthenticationRequest_new ::
    "datetime \<Rightarrow> objid \<Rightarrow> string \<Rightarrow> string \<Rightarrow> AuthenticationRequest" where
  "AuthenticationRequest_new utcnow app success failure =
     \<lparr>ar_application = Some app, ar_user = None, ar_grant = None,
      ar_success = Some success, ar_failure = Some failure,
      ar_expires = expires_default utcnow\<rparr>"

text \<open>
  The index on \<^verbatim>\<open>expires\<close> is declared with \<^verbatim>\<open>expireAfterSeconds=0\<close>.
\<close>

definition expireAfterSeconds :: int where
  "expireAfterSeconds = 0"

text \<open>
  Modelled from the spec: the lookup of a handshake record by its identity, which is
  outside this module. The record is valid strictly before its expiry instant (the
  indexed time plus the index's \<^verbatim>\<open>expireAfterSeconds\<close>) and is reported as not found
  at that instant and after it.
\<close>

definition lookup :: "(objid \<rightharpoonup> AuthenticationRequest) \<Rightarrow> datetime \<Rightarrow> objid \<Rightarrow> error + AuthenticationRequest" where
  "lookup store now rid =
     (case store rid of
        None \<Rightarrow> Inl DoesNotExist
      | Some r \<Rightarrow>
          if now < ar_expires r + expireAfterSeconds * 1000000 then Inr r
          else Inl DoesNotExist)"

section \<open>Example documents\<close>

text \<open>
  The scenario of the spec: user U1 bans character 2 directly, for "abuse". The
  entry's date and the ban's identifier are arbitrary; the entry, an embedded
  document, has no \<^verbatim>\<open>id\<close>.
\<close>

definition U1 :: User where
  "U1 = \<lparr>username = ''U1''\<rparr>"

definition entry_C2 :: CharacterBan where
  "entry_C2 = \<lparr>cb_character = Some 2, cb_date = 0, cb_reason = Some ''direct'',
               cb_enabled = True, cb_id = None\<rparr>"

definition ban_abuse :: Ban where
  "ban_abuse = \<lparr>ban_characters = [entry_C2], ban_IPs = [], ban_enabled = True,
                ban_creator = Some 1, ban_charCreator = Some 1, ban_reason = Some ''abuse'',
                ban_id = Some 100\<rparr>"

text \<open>An origin entry, and a ban with entries of both kinds in mixed states.\<close>

definition entry_host :: IPBan where
  "entry_host = \<lparr>ip_host = Some ''10.0.0.1'', ip_date = 0, ip_reason = Some ''direct'',
                 ip_enabled = True, ip_id = None\<rparr>"

definition ban_mixed :: Ban where
  "ban_mixed = \<lparr>ban_characters = [entry_C2\<lparr>cb_enabled := False\<rparr>, entry_C2\<lparr>cb_character := Some 3\<rparr>],
                ban_IPs = [entry_host], ban_enabled = True,
                ban_creator = Some 1, ban_charCreator = Some 1, ban_reason = Some ''abuse'',
                ban_id = Some 101\<rparr>"

definition ban_empty :: Ban where
  "ban_empty = \<lparr>ban_characters = [], ban_IPs = [], ban_enabled = True,
                ban_creator = Some 1, ban_charCreator = Some 1, ban_reason = Some ''abuse'',
                ban_id = Some 102\<rparr>"

text \<open>A blacklist entry with only its domain populated, and a candidate endpoint.\<close>

definition only_domain :: AuthenticationBlacklist where
  "only_domain = \<lparr>bl_scheme = None, bl_protocol = None, bl_domain = Some ''example.com'',
                  bl_port = None, bl_creator = Some 1\<rparr>"

definition candidate :: endpoint where
  "candidate = \<lparr>ep_scheme = ''https'', ep_protocol = ''tcp'', ep_domain = ''example.com'',
                ep_port = ''443''\<rparr>"

section \<open>Facts about the model\<close>

text \<open>
  Unfolding sets for runs on concrete documents.
\<close>

lemmas toggle_defs =
  Ban_enable_def Ban_disable_def CharacterBan_enable_def CharacterBan_disable_def
  IPBan_enable_def IPBan_disable_def CharacterBan_getattr_def IPBan_getattr_def
  str_format_def opt_ref_def opt_str_def

lemmas example_defs = U1_def entry_C2_def entry_host_def ban_abuse_def ban_mixed_def ban_empty_def

text \<open>
  No template of the module holds a brace, which is what makes \<open>str_format\<close> return
  the template.
\<close>

lemma templates_without_braces:
  "list_all (\<lambda>t. CHR ''{'' \<notin> set t \<and> CHR ''}'' \<notin> set t)
     [''User %s enabled CharacterBan against %s (%s).'',
      ''User %s disabled ban against %s (%s).'',
      ''User %s enabled IPban against %s (%s).'',
      ''User %s enabled ban %s.'',
      ''User %s disabled ban %s.'']"
  by simp

section \<open>The leaf toggles, case by case\<close>

text \<open>
  Each toggle does nothing on an entry that is already in the target state. On an
  entry that is not, it evaluates the arguments of its log call first:
  \<^verbatim>\<open>CharacterBan.disable\<close> always raises there, on \<^verbatim>\<open>self.host\<close>; the other three
  raise on \<^verbatim>\<open>self.id\<close> where it does not resolve, as on every embedded entry, and
  would log and write the flag where it did.
\<close>

lemma CharacterBan_enable_enabled:
  "cb_enabled c \<Longrightarrow> CharacterBan_enable u c lg = (Inr (), c, lg)"
  by (simp add: CharacterBan_enable_def)

lemma CharacterBan_enable_disabled:
  "\<not> cb_enabled c \<Longrightarrow> cb_id c = Some i \<Longrightarrow>
   CharacterBan_enable u c lg =
     (Inr (), c\<lparr>cb_enabled := True\<rparr>,
      lg @ [INFO ''User %s enabled CharacterBan against %s (%s).''])"
  by (simp add: CharacterBan_enable_def CharacterBan_getattr_def str_format_def)

lemma CharacterBan_enable_no_id:
  "\<not> cb_enabled c \<Longrightarrow> cb_id c = None \<Longrightarrow>
   CharacterBan_enable u c lg = (Inl (AttributeError ''id''), c, lg)"
  by (simp add: CharacterBan_enable_def CharacterBan_getattr_def)

lemma CharacterBan_disable_disabled:
  "\<not> cb_enabled c \<Longrightarrow> CharacterBan_disable u c lg = (Inr (), c, lg)"
  by (simp add: CharacterBan_disable_def)

lemma CharacterBan_disable_enabled:
  "cb_enabled c \<Longrightarrow> CharacterBan_disable u c lg = (Inl (AttributeError ''host''), c, lg)"
  by (simp add: CharacterBan_disable_def CharacterBan_getattr_def)

lemma CharacterBan_disable_unchanged:
  "fst (snd (CharacterBan_disable u c lg)) = c"
  by (cases "cb_enabled c")
     (simp_all add: CharacterBan_disable_enabled CharacterBan_disable_disabled)

lemma IPBan_enable_enabled:
  "ip_enabled i \<Longrightarrow> IPBan_enable u i lg = (Inr (), i, lg)"
  by (simp add: IPBan_enable_def)

lemma IPBan_enable_disabled:
  "\<not> ip_enabled i \<Longrightarrow> ip_id i = Some k \<Longrightarrow>
   IPBan_enable u i lg =
     (Inr (), i\<lparr>ip_enabled := True\<rparr>, lg @ [INFO ''User %s enabled IPban against %s (%s).''])"
  by (simp add: IPBan_enable_def IPBan_getattr_def str_format_def)

lemma IPBan_enable_no_id:
  "\<not> ip_enabled i \<Longrightarrow> ip_id i = None \<Longrightarrow>
   IPBan_enable u i lg = (Inl (AttributeError ''id''), i, lg)"
  by (simp add: IPBan_enable_def IPBan_getattr_def)

lemma IPBan_disable_disabled:
  "\<not> ip_enabled i \<Longrightarrow> IPBan_disable u i lg = (Inr (), i, lg)"
  by (simp add: IPBan_disable_def)

lemma IPBan_disable_enabled:
  "ip_enabled i \<Longrightarrow> ip_id i = Some k \<Longrightarrow>
   IPBan_disable u i lg =
     (Inr (), i\<lparr>ip_enabled := False\<rparr>, lg @ [INFO ''User %s disabled ban against %s (%s).''])"
  by (simp add: IPBan_disable_def IPBan_getattr_def str_format_def)

lemma IPBan_disable_no_id:
  "ip_enabled i \<Longrightarrow> ip_id i = None \<Longrightarrow>
   IPBan_disable u i lg = (Inl (AttributeError ''id''), i, lg)"
  by (simp add: IPBan_disable_def IPBan_getattr_def)

section \<open>Loops over the embedded lists\<close>

lemma for_each_frame:
  assumes "\<And>x lg. f (fst (snd (m x lg))) = f x"
  shows "map f (fst (snd (for_each m xs lg))) = map f xs"
proof (induction xs arbitrary: lg)
  case Nil
  show ?case by simp
next
  case (Cons x xs)
  obtain r x' lg' where mx: "m x lg = (r, x', lg')" by (cases "m x lg")
  from assms [of x lg] mx have fx: "f x' = f x" by simp
  show ?case
  proof (cases r)
    case (Inl e)
    with mx fx show ?thesis by simp
  next
    case (Inr u)
    obtain r2 xs' lg2 where rest: "for_each m xs lg' = (r2, xs', lg2)"
      by (cases "for_each m xs lg'")
    from Cons.IH [of lg'] rest have "map f xs' = map f xs" by simp
    with mx fx Inr rest show ?thesis by simp
  qed
qed

lemma for_each_unchanged:
  assumes "\<And>x lg. fst (snd (m x lg)) = x"
  shows "fst (snd (for_each m xs lg)) = xs"
  using for_each_frame [of "\<lambda>x. x" m xs lg] assms by simp

lemma for_each_again:
  assumes stable: "\<And>x lg r x' lg' lg2. m x lg = (r, x', lg') \<Longrightarrow> m x' lg2 = (r, x', lg2)"
    and run: "for_each m xs lg = (r, xs', lg')"
  shows "for_each m xs' lg2 = (r, xs', lg2)"
  using run
proof (induction xs arbitrary: lg r xs' lg')
  case Nil
  then show ?case by simp
next
  case (Cons x xs)
  obtain r1 x1 lg1 where mx: "m x lg = (r1, x1, lg1)" by (cases "m x lg")
  from stable [OF mx] have again: "m x1 lg2 = (r1, x1, lg2)" .
  show ?case
  proof (cases r1)
    case (Inl e)
    with mx Cons.prems have "r = Inl e" "xs' = x1 # xs" by simp_all
    with again Inl show ?thesis by simp
  next
    case (Inr u)
    obtain r2 ys lg3 where rest: "for_each m xs lg1 = (r2, ys, lg3)"
      by (cases "for_each m xs lg1")
    with mx Inr Cons.prems have res: "r = r2" "xs' = x1 # ys" by simp_all
    from Cons.IH [OF rest] have "for_each m ys lg2 = (r2, ys, lg2)" .
    with again Inr res show ?thesis by simp
  qed
qed

lemma for_each_appends:
  assumes "\<And>x lg. \<exists>evs. snd (snd (m x lg)) = lg @ evs \<and> set evs \<subseteq> A"
  shows "\<exists>evs. snd (snd (for_each m xs lg)) = lg @ evs \<and> set evs \<subseteq> A"
proof (induction xs arbitrary: lg)
  case Nil
  show ?case by simp
next
  case (Cons x xs)
  obtain r x' lg' where mx: "m x lg = (r, x', lg')" by (cases "m x lg")
  from assms [of x lg] mx obtain e1 where e1: "lg' = lg @ e1" "set e1 \<subseteq> A" by auto
  show ?case
  proof (cases r)
    case (Inl e)
    with mx e1 show ?thesis by simp
  next
    case (Inr u)
    obtain r2 xs' lg2 where rest: "for_each m xs lg' = (r2, xs', lg2)"
      by (cases "for_each m xs lg'")
    from Cons.IH [of lg'] rest obtain e2 where e2: "lg2 = lg' @ e2" "set e2 \<subseteq> A" by auto
    with e1 have "lg2 = lg @ (e1 @ e2) \<and> set (e1 @ e2) \<subseteq> A" by simp
    with mx Inr rest show ?thesis by auto
  qed
qed

lemma for_each_raises:
  assumes "x \<in> set xs"
    and "\<And>lg. fst (m x lg) = Inl e"
    and "\<And>y lg. y \<in> set xs \<Longrightarrow> fst (m y lg) = Inr () \<or> fst (m y lg) = Inl e"
  shows "fst (for_each m xs lg) = Inl e"
  using assms
proof (induction xs arbitrary: lg)
  case Nil
  then show ?case by simp
next
  case (Cons y ys)
  obtain r y' lg' where my: "m y lg = (r, y', lg')" by (cases "m y lg")
  show ?case
  proof (cases r)
    case (Inl e')
    from Cons.prems(3) [of y lg] my Inl have "e' = e" by simp
    with my Inl show ?thesis by simp
  next
    case (Inr v)
    with my Cons.prems(2) [of lg] have "x \<noteq> y" by auto
    with Cons.prems(1) have "x \<in> set ys" by simp
    from Cons.IH [OF this Cons.prems(2), of lg'] Cons.prems(3)
    have "fst (for_each m ys lg') = Inl e" by simp
    then obtain ys' lg2 where "for_each m ys lg' = (Inl e, ys', lg2)"
      by (cases "for_each m ys lg'") auto
    with my Inr show ?thesis by simp
  qed
qed

section \<open>What the aggregate toggles leave alone\<close>

lemma CharacterBan_enable_frame:
  "(\<lambda>c. (cb_character c, cb_date c, cb_reason c, cb_id c)) (fst (snd (CharacterBan_enable u c lg)))
     = (cb_character c, cb_date c, cb_reason c, cb_id c)"
  by (cases "cb_enabled c"; cases "cb_id c")
     (simp_all add: CharacterBan_enable_enabled CharacterBan_enable_disabled CharacterBan_enable_no_id)

lemma CharacterBan_disable_frame:
  "(\<lambda>c. (cb_character c, cb_date c, cb_reason c, cb_id c)) (fst (snd (CharacterBan_disable u c lg)))
     = (cb_character c, cb_date c, cb_reason c, cb_id c)"
  by (cases "cb_enabled c")
     (simp_all add: CharacterBan_disable_enabled CharacterBan_disable_disabled)

lemma IPBan_enable_frame:
  "(\<lambda>i. (ip_host i, ip_date i, ip_reason i, ip_id i)) (fst (snd (IPBan_enable u i lg)))
     = (ip_host i, ip_date i, ip_reason i, ip_id i)"
  by (cases "ip_enabled i"; cases "ip_id i")
     (simp_all add: IPBan_enable_enabled IPBan_enable_disabled IPBan_enable_no_id)

lemma IPBan_disable_frame:
  "(\<lambda>i. (ip_host i, ip_date i, ip_reason i, ip_id i)) (fst (snd (IPBan_disable u i lg)))
     = (ip_host i, ip_date i, ip_reason i, ip_id i)"
  by (cases "ip_enabled i"; cases "ip_id i")
     (simp_all add: IPBan_disable_enabled IPBan_disable_disabled IPBan_disable_no_id)

text \<open>
  The shape of what a toggle of the aggregate leaves behind: the flag is in the target
  state, and the lists are what the two loops left, the second loop not having run
  when the first one raised.
\<close>

lemma Ban_enable_shape:
  "\<exists>l rc cs lc ri ips li.
     for_each (CharacterBan_enable u) (ban_characters b) l = (rc, cs, lc) \<and>
     for_each (IPBan_enable u) (ban_IPs b) lc = (ri, ips, li) \<and>
     (Ban_enable u b lg = (rc, b\<lparr>ban_enabled := True, ban_characters := cs\<rparr>, lc) \<or>
      Ban_enable u b lg = (ri, b\<lparr>ban_enabled := True, ban_characters := cs, ban_IPs := ips\<rparr>, li))"
proof -
  define l where "l = (if \<not> ban_enabled b then lg @ [INFO ''User %s enabled ban %s.''] else lg)"
  obtain rc cs lc where C: "for_each (CharacterBan_enable u) (ban_characters b) l = (rc, cs, lc)"
    by (cases "for_each (CharacterBan_enable u) (ban_characters b) l")
  obtain ri ips li where I: "for_each (IPBan_enable u) (ban_IPs b) lc = (ri, ips, li)"
    by (cases "for_each (IPBan_enable u) (ban_IPs b) lc")
  have "Ban_enable u b lg = (rc, b\<lparr>ban_enabled := True, ban_characters := cs\<rparr>, lc) \<or>
        Ban_enable u b lg = (ri, b\<lparr>ban_enabled := True, ban_characters := cs, ban_IPs := ips\<rparr>, li)"
    using C I by (cases rc) (auto simp: Ban_enable_def l_def str_format_def)
  with C I show ?thesis by blast
qed

lemma Ban_disable_shape:
  "\<exists>l rc cs lc ri ips li.
     for_each (CharacterBan_disable u) (ban_characters b) l = (rc, cs, lc) \<and>
     for_each (IPBan_disable u) (ban_IPs b) lc = (ri, ips, li) \<and>
     (Ban_disable u b lg = (rc, b\<lparr>ban_enabled := False, ban_characters := cs\<rparr>, lc) \<or>
      Ban_disable u b lg = (ri, b\<lparr>ban_enabled := False, ban_characters := cs, ban_IPs := ips\<rparr>, li))"
proof -
  define l where "l = (if ban_enabled b then lg @ [INFO ''User %s disabled ban %s.''] else lg)"
  obtain rc cs lc where C: "for_each (CharacterBan_disable u) (ban_characters b) l = (rc, cs, lc)"
    by (cases "for_each (CharacterBan_disable u) (ban_characters b) l")
  obtain ri ips li where I: "for_each (IPBan_disable u) (ban_IPs b) lc = (ri, ips, li)"
    by (cases "for_each (IPBan_disable u) (ban_IPs b) lc")
  have "Ban_disable u b lg = (rc, b\<lparr>ban_enabled := False, ban_characters := cs\<rparr>, lc) \<or>
        Ban_disable u b lg = (ri, b\<lparr>ban_enabled := False, ban_characters := cs, ban_IPs := ips\<rparr>, li)"
    using C I by (cases rc) (auto simp: Ban_disable_def l_def str_format_def)
  with C I show ?thesis by blast
qed

text \<open>
  Claim C9. \<^verbatim>\<open>Ban.enable\<close> and \<^verbatim>\<open>Ban.disable\<close> change nothing but enabled flags,
  whether they return or raise: the creator, the creating character, the reason and
  the identity of the ban are as before, both lists keep their length and order, and
  every entry keeps its character or host, its date, its reason and its identity.
\<close>

theorem Ban_toggle_frame:
  assumes "Ban_enable u b lg = (r, b', lg') \<or> Ban_disable u b lg = (r, b', lg')"
  shows "ban_creator b' = ban_creator b \<and>
         ban_charCreator b' = ban_charCreator b \<and>
         ban_reason b' = ban_reason b \<and>
         ban_id b' = ban_id b \<and>
         length (ban_characters b') = length (ban_characters b) \<and>
         length (ban_IPs b') = length (ban_IPs b) \<and>
         map (\<lambda>c. (cb_character c, cb_date c, cb_reason c, cb_id c)) (ban_characters b')
           = map (\<lambda>c. (cb_character c, cb_date c, cb_reason c, cb_id c)) (ban_characters b) \<and>
         map (\<lambda>i. (ip_host i, ip_date i, ip_reason i, ip_id i)) (ban_IPs b')
           = map (\<lambda>i. (ip_host i, ip_date i, ip_reason i, ip_id i)) (ban_IPs b)"
proof -
  let ?fc = "\<lambda>c. (cb_character c, cb_date c, cb_reason c, cb_id c)"
  let ?fi = "\<lambda>i. (ip_host i, ip_date i, ip_reason i, ip_id i)"
  have "\<exists>fl cs ips. b' = b\<lparr>ban_enabled := fl, ban_characters := cs, ban_IPs := ips\<rparr> \<and>
          map ?fc cs = map ?fc (ban_characters b) \<and> map ?fi ips = map ?fi (ban_IPs b)"
    using assms
  proof
    assume E: "Ban_enable u b lg = (r, b', lg')"
    from Ban_enable_shape [of u b lg] obtain l rc cs lc ri ips li where
      C: "for_each (CharacterBan_enable u) (ban_characters b) l = (rc, cs, lc)" and
      I: "for_each (IPBan_enable u) (ban_IPs b) lc = (ri, ips, li)" and
      S: "Ban_enable u b lg = (rc, b\<lparr>ban_enabled := True, ban_characters := cs\<rparr>, lc) \<or>
          Ban_enable u b lg = (ri, b\<lparr>ban_enabled := True, ban_characters := cs, ban_IPs := ips\<rparr>, li)"
      by blast
    have mc: "map ?fc cs = map ?fc (ban_characters b)"
      using for_each_frame [of ?fc "CharacterBan_enable u" "ban_characters b" l,
                            OF CharacterBan_enable_frame] C by simp
    have mi: "map ?fi ips = map ?fi (ban_IPs b)"
      using for_each_frame [of ?fi "IPBan_enable u" "ban_IPs b" lc,
                            OF IPBan_enable_frame] I by simp
    from S E have "b' = b\<lparr>ban_enabled := True, ban_characters := cs, ban_IPs := ban_IPs b\<rparr> \<or>
                   b' = b\<lparr>ban_enabled := True, ban_characters := cs, ban_IPs := ips\<rparr>"
      by auto
    with mc mi show ?thesis by blast
  next
    assume E: "Ban_disable u b lg = (r, b', lg')"
    from Ban_disable_shape [of u b lg] obtain l rc cs lc ri ips li where
      C: "for_each (CharacterBan_disable u) (ban_characters b) l = (rc, cs, lc)" and
      I: "for_each (IPBan_disable u) (ban_IPs b) lc = (ri, ips, li)" and
      S: "Ban_disable u b lg = (rc, b\<lparr>ban_enabled := False, ban_characters := cs\<rparr>, lc) \<or>
          Ban_disable u b lg = (ri, b\<lparr>ban_enabled := False, ban_characters := cs, ban_IPs := ips\<rparr>, li)"
      by blast
    have mc: "map ?fc cs = map ?fc (ban_characters b)"
      using for_each_frame [of ?fc "CharacterBan_disable u" "ban_characters b" l,
                            OF CharacterBan_disable_frame] C by simp
    have mi: "map ?fi ips = map ?fi (ban_IPs b)"
      using for_each_frame [of ?fi "IPBan_disable u" "ban_IPs b" lc,
                            OF IPBan_disable_frame] I by simp
    from S E have "b' = b\<lparr>ban_enabled := False, ban_characters := cs, ban_IPs := ban_IPs b\<rparr> \<or>
                   b' = b\<lparr>ban_enabled := False, ban_characters := cs, ban_IPs := ips\<rparr>"
      by auto
    with mc mi show ?thesis by blast
  qed
  then obtain fl cs ips where
    b': "b' = b\<lparr>ban_enabled := fl, ban_characters := cs, ban_IPs := ips\<rparr>" and
    mc: "map ?fc cs = map ?fc (ban_characters b)" and
    mi: "map ?fi ips = map ?fi (ban_IPs b)"
    by blast
  from mc have lc: "length cs = length (ban_characters b)" by (rule map_eq_imp_length_eq)
  from mi have li: "length ips = length (ban_IPs b)" by (rule map_eq_imp_length_eq)
  from b' mc mi lc li show ?thesis by simp
qed

text \<open>
  The frame at work on a ban with two character entries and one origin entry, on a
  run of \<^verbatim>\<open>disable\<close> that raises.
\<close>

theorem Ban_toggle_frame_witness:
  "Ban_disable U1 ban_mixed [] =
     (Inl (AttributeError ''host''), ban_mixed\<lparr>ban_enabled := False\<rparr>,
      [INFO ''User %s disabled ban %s.'']) \<and>
   ban_creator (ban_mixed\<lparr>ban_enabled := False\<rparr>) = Some 1 \<and>
   ban_reason (ban_mixed\<lparr>ban_enabled := False\<rparr>) = Some ''abuse'' \<and>
   length (ban_characters (ban_mixed\<lparr>ban_enabled := False\<rparr>)) = 2 \<and>
   map cb_character (ban_characters (ban_mixed\<lparr>ban_enabled := False\<rparr>)) = [Some 2, Some 3] \<and>
   map ip_host (ban_IPs (ban_mixed\<lparr>ban_enabled := False\<rparr>)) = [Some ''10.0.0.1'']"
proof -
  have run: "Ban_disable U1 ban_mixed [] =
     (Inl (AttributeError ''host''), ban_mixed\<lparr>ban_enabled := False\<rparr>,
      [INFO ''User %s disabled ban %s.''])"
    by (simp add: toggle_defs example_defs)
  have orig: "ban_creator ban_mixed = Some 1" "ban_reason ban_mixed = Some ''abuse''"
    "length (ban_characters ban_mixed) = 2"
    "map (\<lambda>c. (cb_character c, cb_date c, cb_reason c, cb_id c)) (ban_characters ban_mixed)
       = [(Some 2, 0, Some ''direct'', None), (Some 3, 0, Some ''direct'', None)]"
    "map (\<lambda>i. (ip_host i, ip_date i, ip_reason i, ip_id i)) (ban_IPs ban_mixed)
       = [(Some ''10.0.0.1'', 0, Some ''direct'', None)]"
    by (simp_all add: example_defs)
  note fr = Ban_toggle_frame [OF disjI2, OF run]
  from fr orig have
    "ban_creator (ban_mixed\<lparr>ban_enabled := False\<rparr>) = Some 1"
    "ban_reason (ban_mixed\<lparr>ban_enabled := False\<rparr>) = Some ''abuse''"
    "length (ban_characters (ban_mixed\<lparr>ban_enabled := False\<rparr>)) = 2"
    by metis+
  moreover from fr orig have
    "map (\<lambda>c. (cb_character c, cb_date c, cb_reason c, cb_id c)) (ban_characters (ban_mixed\<lparr>ban_enabled := False\<rparr>))
       = [(Some 2, 0, Some ''direct'', None), (Some 3, 0, Some ''direct'', None)]"
    "map (\<lambda>i. (ip_host i, ip_date i, ip_reason i, ip_id i)) (ban_IPs (ban_mixed\<lparr>ban_enabled := False\<rparr>))
       = [(Some ''10.0.0.1'', 0, Some ''direct'', None)]"
    by metis+
  then have "map cb_character (ban_characters (ban_mixed\<lparr>ban_enabled := False\<rparr>)) = [Some 2, Some 3]"
    "map ip_host (ban_IPs (ban_mixed\<lparr>ban_enabled := False\<rparr>)) = [Some ''10.0.0.1'']"
    by (auto simp: map_eq_Cons_conv)
  ultimately show ?thesis using run by simp
qed

section \<open>The cascade of enable\<close>

text \<open>
  \<^verbatim>\<open>CharacterBan.enable\<close> and \<^verbatim>\<open>IPBan.enable\<close> read \<^verbatim>\<open>self.id\<close> for their
  log call before they write the flag. An entry on which the read does not resolve is
  left as it was, and \<^verbatim>\<open>Ban.enable\<close> raises at the first disabled one.
\<close>

lemma CharacterBan_enable_without_id:
  "cb_id c = None \<Longrightarrow> fst (snd (CharacterBan_enable u c lg)) = c"
  by (cases "cb_enabled c")
     (simp_all add: CharacterBan_enable_enabled CharacterBan_enable_no_id)

lemma for_each_unchanged_on:
  assumes "\<And>x lg. x \<in> set xs \<Longrightarrow> fst (snd (m x lg)) = x"
  shows "fst (snd (for_each m xs lg)) = xs"
  using assms
proof (induction xs arbitrary: lg)
  case Nil
  show ?case by simp
next
  case (Cons x xs)
  obtain r x' lg' where mx: "m x lg = (r, x', lg')" by (cases "m x lg")
  from Cons.prems [of x lg] mx have same: "x' = x" by simp
  show ?case
  proof (cases r)
    case (Inl e)
    with mx same show ?thesis by simp
  next
    case (Inr v)
    obtain r2 xs' lg2 where rest: "for_each m xs lg' = (r2, xs', lg2)"
      by (cases "for_each m xs lg'")
    from Cons.IH [of lg'] Cons.prems rest have "xs' = xs" by simp
    with mx same Inr rest show ?thesis by simp
  qed
qed

lemma Ban_enable_characters_unchanged:
  assumes "\<forall>c\<in>set (ban_characters b). cb_id c = None"
  shows "ban_characters (fst (snd (Ban_enable u b lg))) = ban_characters b"
proof -
  from Ban_enable_shape [of u b lg] obtain l rc cs lc ri ips li where
    C: "for_each (CharacterBan_enable u) (ban_characters b) l = (rc, cs, lc)" and
    S: "Ban_enable u b lg = (rc, b\<lparr>ban_enabled := True, ban_characters := cs\<rparr>, lc) \<or>
        Ban_enable u b lg = (ri, b\<lparr>ban_enabled := True, ban_characters := cs, ban_IPs := ips\<rparr>, li)"
    by blast
  have "fst (snd (for_each (CharacterBan_enable u) (ban_characters b) l)) = ban_characters b"
    by (rule for_each_unchanged_on) (use assms in \<open>simp add: CharacterBan_enable_without_id\<close>)
  with C have "cs = ban_characters b" by simp
  with S show ?thesis by auto
qed

lemma Ban_enable_raises:
  assumes "c \<in> set (ban_characters b)" and "\<not> cb_enabled c"
    and "\<forall>c\<in>set (ban_characters b). cb_id c = None"
  shows "fst (Ban_enable u b lg) = Inl (AttributeError ''id'')"
proof -
  define l where "l = (if \<not> ban_enabled b then lg @ [INFO ''User %s enabled ban %s.''] else lg)"
  have "fst (for_each (CharacterBan_enable u) (ban_characters b) l) = Inl (AttributeError ''id'')"
  proof (rule for_each_raises [OF assms(1)])
    from assms have "cb_id c = None" by simp
    with assms(2) show "fst (CharacterBan_enable u c lg) = Inl (AttributeError ''id'')" for lg
      by (simp add: CharacterBan_enable_no_id)
    show "fst (CharacterBan_enable u y lg) = Inr () \<or>
          fst (CharacterBan_enable u y lg) = Inl (AttributeError ''id'')"
      if "y \<in> set (ban_characters b)" for y lg
    proof -
      from that assms(3) have "cb_id y = None" by simp
      then show ?thesis
        by (cases "cb_enabled y")
           (simp_all add: CharacterBan_enable_enabled CharacterBan_enable_no_id)
    qed
  qed
  then obtain cs lc where
    "for_each (CharacterBan_enable u) (ban_characters b) l = (Inl (AttributeError ''id''), cs, lc)"
    by (cases "for_each (CharacterBan_enable u) (ban_characters b) l") auto
  then show ?thesis
    by (cases "ban_enabled b") (simp_all add: Ban_enable_def l_def str_format_def)
qed

text \<open>
  Claim C3. On a ban whose own flag is already set, \<^verbatim>\<open>enable\<close> should log nothing
  for the ban itself, leave the ban's flag alone and still enable every disabled
  entry. On an enabled ban whose first character entry is disabled, the call logs
  nothing and leaves the ban's own fields alone, and then raises
  \<^verbatim>\<open>AttributeError\<close> at that entry, on \<^verbatim>\<open>self.id\<close>: the entry is still
  disabled, and the ban is as it was.
\<close>

theorem Ban_enable_leaves_child_disabled:
  "ban_enabled ban_mixed \<and>
   map cb_enabled (ban_characters ban_mixed) = [False, True] \<and>
   Ban_enable U1 ban_mixed [] = (Inl (AttributeError ''id''), ban_mixed, [])"
  by (simp add: toggle_defs example_defs)

section \<open>A ban without entries\<close>

text \<open>
  Claim C10. On a ban with no character entry and no origin entry, \<^verbatim>\<open>disable\<close>
  while enabled clears the ban's own flag, changes nothing else and logs exactly one
  record; \<^verbatim>\<open>disable\<close> while disabled changes nothing and logs nothing; and
  \<^verbatim>\<open>enable\<close> is the mirror image. All four calls return normally.
\<close>

theorem Ban_toggle_without_children:
  assumes "ban_characters b = []" and "ban_IPs b = []"
  shows "(ban_enabled b \<longrightarrow>
            Ban_disable u b lg =
              (Inr (), b\<lparr>ban_enabled := False\<rparr>, lg @ [INFO ''User %s disabled ban %s.''])) \<and>
         (\<not> ban_enabled b \<longrightarrow> Ban_disable u b lg = (Inr (), b, lg)) \<and>
         (\<not> ban_enabled b \<longrightarrow>
            Ban_enable u b lg =
              (Inr (), b\<lparr>ban_enabled := True\<rparr>, lg @ [INFO ''User %s enabled ban %s.''])) \<and>
         (ban_enabled b \<longrightarrow> Ban_enable u b lg = (Inr (), b, lg))"
  using assms by (cases b) (simp add: Ban_disable_def Ban_enable_def str_format_def)

text \<open>
  The four calls on a ban without entries.
\<close>

theorem Ban_toggle_without_children_witness:
  "ban_characters ban_empty = [] \<and> ban_IPs ban_empty = [] \<and>
   Ban_disable U1 ban_empty [] =
     (Inr (), ban_empty\<lparr>ban_enabled := False\<rparr>, [INFO ''User %s disabled ban %s.'']) \<and>
   Ban_disable U1 (ban_empty\<lparr>ban_enabled := False\<rparr>) [INFO ''User %s disabled ban %s.''] =
     (Inr (), ban_empty\<lparr>ban_enabled := False\<rparr>, [INFO ''User %s disabled ban %s.'']) \<and>
   Ban_enable U1 (ban_empty\<lparr>ban_enabled := False\<rparr>) [] =
     (Inr (), ban_empty, [INFO ''User %s enabled ban %s.'']) \<and>
   Ban_enable U1 ban_empty [] = (Inr (), ban_empty, [])"
proof -
  have e: "ban_characters ban_empty = []" "ban_IPs ban_empty = []" "ban_enabled ban_empty"
    by (simp_all add: example_defs)
  have d: "ban_characters (ban_empty\<lparr>ban_enabled := False\<rparr>) = []"
    "ban_IPs (ban_empty\<lparr>ban_enabled := False\<rparr>) = []"
    "\<not> ban_enabled (ban_empty\<lparr>ban_enabled := False\<rparr>)"
    "ban_empty\<lparr>ban_enabled := False\<rparr>\<lparr>ban_enabled := True\<rparr> = ban_empty"
    by (simp_all add: example_defs)
  from Ban_toggle_without_children [OF e(1,2), of U1 "[]"]
       Ban_toggle_without_children [OF d(1,2), of U1 "[INFO ''User %s disabled ban %s.'']"]
       Ban_toggle_without_children [OF d(1,2), of U1 "[]"]
       e d
  show ?thesis by simp
qed

section \<open>Enabling twice\<close>

lemma CharacterBan_enable_again:
  "CharacterBan_enable u c lg = (r, c', lg') \<Longrightarrow> CharacterBan_enable u c' lg2 = (r, c', lg2)"
  by (cases "cb_enabled c"; cases "cb_id c")
     (auto simp: CharacterBan_enable_enabled CharacterBan_enable_disabled CharacterBan_enable_no_id)

lemma IPBan_enable_again:
  "IPBan_enable u i lg = (r, i', lg') \<Longrightarrow> IPBan_enable u i' lg2 = (r, i', lg2)"
  by (cases "ip_enabled i"; cases "ip_id i")
     (auto simp: IPBan_enable_enabled IPBan_enable_disabled IPBan_enable_no_id)

lemma CharacterBan_disable_again:
  "CharacterBan_disable u c lg = (r, c', lg') \<Longrightarrow> CharacterBan_disable u c' lg2 = (r, c', lg2)"
  by (cases "cb_enabled c")
     (auto simp: CharacterBan_disable_enabled CharacterBan_disable_disabled)

lemma IPBan_disable_again:
  "IPBan_disable u i lg = (r, i', lg') \<Longrightarrow> IPBan_disable u i' lg2 = (r, i', lg2)"
  by (cases "ip_enabled i"; cases "ip_id i")
     (auto simp: IPBan_disable_enabled IPBan_disable_disabled IPBan_disable_no_id)

lemma Ban_enable_again:
  assumes "Ban_enable u b lg = (r, b1, lg1)"
  shows "Ban_enable u b1 lg2 = (r, b1, lg2)"
proof -
  define s where "s = b\<lparr>ban_enabled := True\<rparr>"
  define l where "l = (if \<not> ban_enabled b then lg @ [INFO ''User %s enabled ban %s.''] else lg)"
  obtain rc cs lc where C: "for_each (CharacterBan_enable u) (ban_characters b) l = (rc, cs, lc)"
    by (cases "for_each (CharacterBan_enable u) (ban_characters b) l")
  have C2: "for_each (CharacterBan_enable u) cs lg2 = (rc, cs, lg2)"
    by (rule for_each_again [OF _ C]) (rule CharacterBan_enable_again)
  show ?thesis
  proof (cases rc)
    case (Inl e)
    with assms C have "r = Inl e" "b1 = s\<lparr>ban_characters := cs\<rparr>"
      by (auto simp: Ban_enable_def s_def l_def str_format_def split: if_splits)
    with C2 Inl show ?thesis
      by (simp add: Ban_enable_def s_def)
  next
    case (Inr v)
    obtain ri ips li where I: "for_each (IPBan_enable u) (ban_IPs b) lc = (ri, ips, li)"
      by (cases "for_each (IPBan_enable u) (ban_IPs b) lc")
    have I2: "for_each (IPBan_enable u) ips lg2 = (ri, ips, lg2)"
      by (rule for_each_again [OF _ I]) (rule IPBan_enable_again)
    from assms C I Inr have "r = ri" "b1 = s\<lparr>ban_characters := cs, ban_IPs := ips\<rparr>"
      by (auto simp: Ban_enable_def s_def l_def str_format_def split: if_splits)
    with C2 I2 Inr show ?thesis
      by (simp add: Ban_enable_def s_def)
  qed
qed

lemma Ban_enable_own_flag:
  assumes "ban_enabled b"
  shows "ban_enabled (fst (snd (Ban_enable u b lg))) \<and>
         (\<exists>evs. snd (snd (Ban_enable u b lg)) = lg @ evs \<and>
                set evs \<subseteq> {INFO ''User %s enabled CharacterBan against %s (%s).'',
                            INFO ''User %s enabled IPban against %s (%s).''})"
proof -
  let ?A = "{INFO ''User %s enabled CharacterBan against %s (%s).'',
             INFO ''User %s enabled IPban against %s (%s).''}"
  have ca: "\<exists>evs. snd (snd (CharacterBan_enable u c l)) = l @ evs \<and> set evs \<subseteq> ?A" for c l
    by (cases "cb_enabled c"; cases "cb_id c")
       (simp_all add: CharacterBan_enable_enabled CharacterBan_enable_disabled CharacterBan_enable_no_id)
  have ia: "\<exists>evs. snd (snd (IPBan_enable u i l)) = l @ evs \<and> set evs \<subseteq> ?A" for i l
    by (cases "ip_enabled i"; cases "ip_id i")
       (simp_all add: IPBan_enable_enabled IPBan_enable_disabled IPBan_enable_no_id)
  obtain rc cs lc where C: "for_each (CharacterBan_enable u) (ban_characters b) lg = (rc, cs, lc)"
    by (cases "for_each (CharacterBan_enable u) (ban_characters b) lg")
  obtain ri ips li where I: "for_each (IPBan_enable u) (ban_IPs b) lc = (ri, ips, li)"
    by (cases "for_each (IPBan_enable u) (ban_IPs b) lc")
  from for_each_appends [of "CharacterBan_enable u" ?A "ban_characters b" lg, OF ca] C
  obtain e1 where e1: "lc = lg @ e1" "set e1 \<subseteq> ?A" by auto
  from for_each_appends [of "IPBan_enable u" ?A "ban_IPs b" lc, OF ia] I
  obtain e2 where e2: "li = lc @ e2" "set e2 \<subseteq> ?A" by auto
  from e1 e2 have e12: "li = lg @ (e1 @ e2)" "set (e1 @ e2) \<subseteq> ?A" by simp_all
  show ?thesis
  proof (cases rc)
    case (Inl e)
    with assms C have "Ban_enable u b lg = (Inl e, b\<lparr>ban_characters := cs\<rparr>, lc)"
      by (simp add: Ban_enable_def)
    with assms e1 show ?thesis by auto
  next
    case (Inr v)
    with assms C I have "Ban_enable u b lg = (ri, b\<lparr>ban_characters := cs, ban_IPs := ips\<rparr>, li)"
      by (simp add: Ban_enable_def)
    with assms e12 show ?thesis by auto
  qed
qed

lemma ban_abuse_disabled_enable:
  "Ban_enable U1 (ban_abuse\<lparr>ban_enabled := False\<rparr>) [] =
     (Inr (), ban_abuse, [INFO ''User %s enabled ban %s.''])"
  by (simp add: toggle_defs example_defs)

lemma ban_mixed_disabled_enable:
  "Ban_enable U1 (ban_mixed\<lparr>ban_enabled := False\<rparr>) [] =
     (Inl (AttributeError ''id''), ban_mixed, [INFO ''User %s enabled ban %s.''])"
  by (simp add: toggle_defs example_defs)

text \<open>
  Claim C2. \<^verbatim>\<open>enable\<close> on a character entry or an origin entry that is already
  enabled changes nothing and logs nothing. A second \<^verbatim>\<open>enable\<close> of a ban, called on
  what a first call left, changes nothing and logs nothing, and ends as the first call
  ended. On a ban whose own flag is already set, \<^verbatim>\<open>enable\<close> keeps the flag set and
  logs no record for the ban itself.
\<close>

theorem enable_twice_is_noop:
  "(cb_enabled c \<longrightarrow> CharacterBan_enable u c lg = (Inr (), c, lg)) \<and>
   (ip_enabled i \<longrightarrow> IPBan_enable u i lg = (Inr (), i, lg)) \<and>
   (Ban_enable u b lg = (r, b1, lg1) \<longrightarrow> Ban_enable u b1 lg1 = (r, b1, lg1)) \<and>
   (ban_enabled b \<longrightarrow>
      ban_enabled (fst (snd (Ban_enable u b lg))) \<and>
      (\<exists>evs. snd (snd (Ban_enable u b lg)) = lg @ evs \<and>
             INFO ''User %s enabled ban %s.'' \<notin> set evs))"
proof -
  have "\<exists>evs. snd (snd (Ban_enable u b lg)) = lg @ evs \<and> INFO ''User %s enabled ban %s.'' \<notin> set evs"
    if "ban_enabled b"
  proof -
    from Ban_enable_own_flag [OF that, of u lg] obtain evs where
      "snd (snd (Ban_enable u b lg)) = lg @ evs"
      "set evs \<subseteq> {INFO ''User %s enabled CharacterBan against %s (%s).'',
                   INFO ''User %s enabled IPban against %s (%s).''}"
      by blast
    moreover from this have "INFO ''User %s enabled ban %s.'' \<notin> set evs" by auto
    ultimately show ?thesis by blast
  qed
  then show ?thesis
    by (auto simp: CharacterBan_enable_enabled IPBan_enable_enabled
             dest: Ban_enable_again Ban_enable_own_flag)
qed

text \<open>
  Enabled entries; a disabled ban with an enabled entry, enabled twice; a disabled ban
  with a disabled entry, on which both calls raise; and an enabled ban.
\<close>

theorem enable_twice_is_noop_witness:
  "cb_enabled entry_C2 \<and> CharacterBan_enable U1 entry_C2 [] = (Inr (), entry_C2, []) \<and>
   ip_enabled entry_host \<and> IPBan_enable U1 entry_host [] = (Inr (), entry_host, []) \<and>
   Ban_enable U1 (ban_abuse\<lparr>ban_enabled := False\<rparr>) [] =
     (Inr (), ban_abuse, [INFO ''User %s enabled ban %s.'']) \<and>
   Ban_enable U1 ban_abuse [INFO ''User %s enabled ban %s.''] =
     (Inr (), ban_abuse, [INFO ''User %s enabled ban %s.'']) \<and>
   Ban_enable U1 (ban_mixed\<lparr>ban_enabled := False\<rparr>) [] =
     (Inl (AttributeError ''id''), ban_mixed, [INFO ''User %s enabled ban %s.'']) \<and>
   Ban_enable U1 ban_mixed [INFO ''User %s enabled ban %s.''] =
     (Inl (AttributeError ''id''), ban_mixed, [INFO ''User %s enabled ban %s.'']) \<and>
   ban_enabled ban_mixed \<and> ban_enabled (fst (snd (Ban_enable U1 ban_mixed [])))"
proof -
  have h: "cb_enabled entry_C2" "ip_enabled entry_host" "ban_enabled ban_mixed"
    by (simp_all add: example_defs)
  note T = enable_twice_is_noop [of entry_C2 U1 "[]" entry_host]
  from T [of "ban_abuse\<lparr>ban_enabled := False\<rparr>"] ban_abuse_disabled_enable h
  have a: "CharacterBan_enable U1 entry_C2 [] = (Inr (), entry_C2, [])"
    "IPBan_enable U1 entry_host [] = (Inr (), entry_host, [])"
    "Ban_enable U1 ban_abuse [INFO ''User %s enabled ban %s.''] =
       (Inr (), ban_abuse, [INFO ''User %s enabled ban %s.''])"
    by blast+
  from T [of "ban_mixed\<lparr>ban_enabled := False\<rparr>"] ban_mixed_disabled_enable
  have b: "Ban_enable U1 ban_mixed [INFO ''User %s enabled ban %s.''] =
       (Inl (AttributeError ''id''), ban_mixed, [INFO ''User %s enabled ban %s.''])"
    by blast
  from T [of ban_mixed] h have c: "ban_enabled (fst (snd (Ban_enable U1 ban_mixed [])))"
    by blast
  from a b c h ban_abuse_disabled_enable ban_mixed_disabled_enable show ?thesis by simp
qed

section \<open>The cascade of disable\<close>

text \<open>
  \<^verbatim>\<open>CharacterBan.disable\<close> never writes the flag, so \<^verbatim>\<open>Ban.disable\<close> leaves
  every character entry as it found it, and raises as soon as it meets an enabled one.
  Where no character entry is enabled the loop over the origin entries is reached, and
  raises at the first enabled one, on \<^verbatim>\<open>self.id\<close>.
\<close>

lemma Ban_disable_characters_unchanged:
  "ban_characters (fst (snd (Ban_disable u b lg))) = ban_characters b"
proof -
  from Ban_disable_shape [of u b lg] obtain l rc cs lc ri ips li where
    C: "for_each (CharacterBan_disable u) (ban_characters b) l = (rc, cs, lc)" and
    S: "Ban_disable u b lg = (rc, b\<lparr>ban_enabled := False, ban_characters := cs\<rparr>, lc) \<or>
        Ban_disable u b lg = (ri, b\<lparr>ban_enabled := False, ban_characters := cs, ban_IPs := ips\<rparr>, li)"
    by blast
  from for_each_unchanged [of "CharacterBan_disable u" "ban_characters b" l,
                           OF CharacterBan_disable_unchanged] C
  have "cs = ban_characters b" by simp
  with S show ?thesis by auto
qed

lemma Ban_disable_raises:
  assumes "c \<in> set (ban_characters b)" and "cb_enabled c"
  shows "fst (Ban_disable u b lg) = Inl (AttributeError ''host'')"
proof -
  define l where "l = (if ban_enabled b then lg @ [INFO ''User %s disabled ban %s.''] else lg)"
  have "fst (for_each (CharacterBan_disable u) (ban_characters b) l) = Inl (AttributeError ''host'')"
  proof (rule for_each_raises [OF assms(1)])
    show "fst (CharacterBan_disable u c lg) = Inl (AttributeError ''host'')" for lg
      using assms(2) by (simp add: CharacterBan_disable_enabled)
    show "fst (CharacterBan_disable u y lg) = Inr () \<or>
          fst (CharacterBan_disable u y lg) = Inl (AttributeError ''host'')" for y lg
      by (cases "cb_enabled y")
         (simp_all add: CharacterBan_disable_enabled CharacterBan_disable_disabled)
  qed
  then obtain cs lc where
    "for_each (CharacterBan_disable u) (ban_characters b) l = (Inl (AttributeError ''host''), cs, lc)"
    by (cases "for_each (CharacterBan_disable u) (ban_characters b) l") auto
  then show ?thesis
    by (cases "ban_enabled b") (simp_all add: Ban_disable_def l_def str_format_def)
qed

lemma Ban_disable_origin_entry:
  "Ban_disable U1 (ban_empty\<lparr>ban_IPs := [entry_host]\<rparr>) [] =
     (Inl (AttributeError ''id''), ban_empty\<lparr>ban_enabled := False, ban_IPs := [entry_host]\<rparr>,
      [INFO ''User %s disabled ban %s.''])"
  by (simp add: toggle_defs example_defs)

text \<open>
  Claim C1. After \<^verbatim>\<open>disable\<close> every entry should be disabled, whatever its state
  before. On an enabled ban with one disabled and one enabled character entry and one
  enabled origin entry, the call clears the ban's own flag, logs the ban-level record
  and then raises \<^verbatim>\<open>AttributeError\<close> at the enabled character entry: that entry
  and the origin entry are still enabled.
\<close>

theorem Ban_disable_leaves_character_enabled:
  "Ban_disable U1 ban_mixed [] =
     (Inl (AttributeError ''host''), ban_mixed\<lparr>ban_enabled := False\<rparr>,
      [INFO ''User %s disabled ban %s.'']) \<and>
   map cb_enabled (ban_characters (ban_mixed\<lparr>ban_enabled := False\<rparr>)) = [False, True] \<and>
   map ip_enabled (ban_IPs (ban_mixed\<lparr>ban_enabled := False\<rparr>)) = [True]"
  by (simp add: toggle_defs example_defs)

text \<open>
  Claim C4. The scenario of the spec: an enabled ban with one enabled character entry
  is disabled twice. The first call clears the ban's flag, logs one record, the
  ban-level one, and raises; the entry is still enabled. The second call raises again,
  changes nothing and logs nothing.
\<close>

theorem scenario_disable_twice:
  "Ban_disable U1 ban_abuse [] =
     (Inl (AttributeError ''host''), ban_abuse\<lparr>ban_enabled := False\<rparr>,
      [INFO ''User %s disabled ban %s.'']) \<and>
   cb_enabled (hd (ban_characters (ban_abuse\<lparr>ban_enabled := False\<rparr>))) \<and>
   Ban_disable U1 (ban_abuse\<lparr>ban_enabled := False\<rparr>) [INFO ''User %s disabled ban %s.''] =
     (Inl (AttributeError ''host''), ban_abuse\<lparr>ban_enabled := False\<rparr>,
      [INFO ''User %s disabled ban %s.''])"
  by (simp add: toggle_defs example_defs)

section \<open>Creation with a required field missing\<close>

lemma Ban_save_rejects:
  assumes "x \<in> set (Ban_validate b)"
  shows "\<exists>errs. Ban_save b = Inl (ValidationError errs) \<and> x \<in> set errs"
proof (cases "Ban_validate b")
  case Nil
  with assms show ?thesis by simp
next
  case (Cons e es)
  with assms show ?thesis by (simp add: Ban_save_def)
qed

lemma ban_abuse_saved: "Ban_save ban_abuse = Inr ban_abuse"
  by (simp add: Ban_save_def Ban_validate_def CharacterBan_validate_def example_defs)

text \<open>
  Claim C8. A character entry without its character and an origin entry without its
  host fail validation; saving a ban fails with a validation error, and writes no
  record, when the ban lacks its creator, its creating character or its reason, or
  holds an entry that fails in this way.
\<close>

theorem creation_rejects_missing_required:
  "(cb_character c = None \<longrightarrow> ''character'' \<in> set (CharacterBan_validate c)) \<and>
   (ip_host i = None \<longrightarrow> ''host'' \<in> set (IPBan_validate i)) \<and>
   (ban_creator b = None \<longrightarrow>
      (\<exists>errs. Ban_save b = Inl (ValidationError errs) \<and> ''creator'' \<in> set errs)) \<and>
   (ban_charCreator b = None \<longrightarrow>
      (\<exists>errs. Ban_save b = Inl (ValidationError errs) \<and> ''charCreator'' \<in> set errs)) \<and>
   (ban_reason b = None \<longrightarrow>
      (\<exists>errs. Ban_save b = Inl (ValidationError errs) \<and> ''reason'' \<in> set errs)) \<and>
   ((\<exists>c\<in>set (ban_characters b). cb_character c = None) \<longrightarrow>
      (\<exists>errs. Ban_save b = Inl (ValidationError errs) \<and> ''character'' \<in> set errs)) \<and>
   ((\<exists>i\<in>set (ban_IPs b). ip_host i = None) \<longrightarrow>
      (\<exists>errs. Ban_save b = Inl (ValidationError errs) \<and> ''host'' \<in> set errs))"
proof -
  have c: "''character'' \<in> set (CharacterBan_validate c)" if "cb_character c = None" for c
    using that by (simp add: CharacterBan_validate_def)
  have i: "''host'' \<in> set (IPBan_validate i)" if "ip_host i = None" for i
    using that by (simp add: IPBan_validate_def)
  have b1: "''creator'' \<in> set (Ban_validate b)" if "ban_creator b = None"
    using that by (simp add: Ban_validate_def)
  have b2: "''charCreator'' \<in> set (Ban_validate b)" if "ban_charCreator b = None"
    using that by (simp add: Ban_validate_def)
  have b3: "''reason'' \<in> set (Ban_validate b)" if "ban_reason b = None"
    using that by (simp add: Ban_validate_def)
  have b4: "''character'' \<in> set (Ban_validate b)"
    if "\<exists>c\<in>set (ban_characters b). cb_character c = None"
    using that c by (auto simp: Ban_validate_def)
  have b5: "''host'' \<in> set (Ban_validate b)"
    if "\<exists>i\<in>set (ban_IPs b). ip_host i = None"
    using that i by (auto simp: Ban_validate_def)
  show ?thesis
    using c i b1 b2 b3 b4 b5 by (blast intro: Ban_save_rejects)
qed

text \<open>
  Each of the five fields left out in turn, and the complete ban, which is saved.
\<close>

theorem creation_rejects_missing_required_witness:
  "''character'' \<in> set (CharacterBan_validate (entry_C2\<lparr>cb_character := None\<rparr>)) \<and>
   ''host'' \<in> set (IPBan_validate (entry_host\<lparr>ip_host := None\<rparr>)) \<and>
   (\<exists>errs. Ban_save (ban_abuse\<lparr>ban_creator := None\<rparr>) = Inl (ValidationError errs)) \<and>
   (\<exists>errs. Ban_save (ban_abuse\<lparr>ban_charCreator := None\<rparr>) = Inl (ValidationError errs)) \<and>
   (\<exists>errs. Ban_save (ban_abuse\<lparr>ban_reason := None\<rparr>) = Inl (ValidationError errs)) \<and>
   (\<exists>errs. Ban_save (ban_abuse\<lparr>ban_characters := [entry_C2\<lparr>cb_character := None\<rparr>]\<rparr>)
             = Inl (ValidationError errs)) \<and>
   (\<exists>errs. Ban_save (ban_abuse\<lparr>ban_IPs := [entry_host\<lparr>ip_host := None\<rparr>]\<rparr>)
             = Inl (ValidationError errs)) \<and>
   Ban_save ban_abuse = Inr ban_abuse"
proof -
  have h: "cb_character (entry_C2\<lparr>cb_character := None\<rparr>) = None"
    "ip_host (entry_host\<lparr>ip_host := None\<rparr>) = None"
    "ban_creator (ban_abuse\<lparr>ban_creator := None\<rparr>) = None"
    "ban_charCreator (ban_abuse\<lparr>ban_charCreator := None\<rparr>) = None"
    "ban_reason (ban_abuse\<lparr>ban_reason := None\<rparr>) = None"
    "\<exists>c\<in>set (ban_characters (ban_abuse\<lparr>ban_characters := [entry_C2\<lparr>cb_character := None\<rparr>]\<rparr>)).
        cb_character c = None"
    "\<exists>i\<in>set (ban_IPs (ban_abuse\<lparr>ban_IPs := [entry_host\<lparr>ip_host := None\<rparr>]\<rparr>)).
        ip_host i = None"
    by simp_all
  note T = creation_rejects_missing_required
  from T [of "entry_C2\<lparr>cb_character := None\<rparr>" "entry_host\<lparr>ip_host := None\<rparr>"
            "ban_abuse\<lparr>ban_creator := None\<rparr>"] h
  have a: "''character'' \<in> set (CharacterBan_validate (entry_C2\<lparr>cb_character := None\<rparr>))"
    "''host'' \<in> set (IPBan_validate (entry_host\<lparr>ip_host := None\<rparr>))"
    "\<exists>errs. Ban_save (ban_abuse\<lparr>ban_creator := None\<rparr>) = Inl (ValidationError errs)"
    by blast+
  from T [of _ _ "ban_abuse\<lparr>ban_charCreator := None\<rparr>"] h
  have b: "\<exists>errs. Ban_save (ban_abuse\<lparr>ban_charCreator := None\<rparr>) = Inl (ValidationError errs)"
    by blast
  from T [of _ _ "ban_abuse\<lparr>ban_reason := None\<rparr>"] h
  have c: "\<exists>errs. Ban_save (ban_abuse\<lparr>ban_reason := None\<rparr>) = Inl (ValidationError errs)"
    by blast
  from T [of _ _ "ban_abuse\<lparr>ban_characters := [entry_C2\<lparr>cb_character := None\<rparr>]\<rparr>"] h(6)
  have d: "\<exists>errs. Ban_save (ban_abuse\<lparr>ban_characters := [entry_C2\<lparr>cb_character := None\<rparr>]\<rparr>)
             = Inl (ValidationError errs)"
    by blast
  from T [of _ _ "ban_abuse\<lparr>ban_IPs := [entry_host\<lparr>ip_host := None\<rparr>]\<rparr>"] h(7)
  have e: "\<exists>errs. Ban_save (ban_abuse\<lparr>ban_IPs := [entry_host\<lparr>ip_host := None\<rparr>]\<rparr>)
             = Inl (ValidationError errs)"
    by blast
  from a b c d e ban_abuse_saved show ?thesis by simp
qed

section \<open>Blacklist matching\<close>

text \<open>
  Claim C7. An entry matches a candidate endpoint exactly when every populated field
  of the entry equals the candidate's; an entry with only the domain
  \<^verbatim>\<open>example.com\<close> populated matches exactly the candidates of that domain, whatever
  their scheme, protocol and port, and so none of domain \<^verbatim>\<open>other.com\<close>.
\<close>

theorem blacklist_wildcard_matching:
  "(blacklist_matches e c \<longleftrightarrow>
      (\<forall>v. bl_scheme e = Some v \<longrightarrow> ep_scheme c = v) \<and>
      (\<forall>v. bl_protocol e = Some v \<longrightarrow> ep_protocol c = v) \<and>
      (\<forall>v. bl_domain e = Some v \<longrightarrow> ep_domain c = v) \<and>
      (\<forall>v. bl_port e = Some v \<longrightarrow> ep_port c = v)) \<and>
   (bl_scheme e = None \<and> bl_protocol e = None \<and> bl_domain e = Some ''example.com'' \<and>
    bl_port e = None \<longrightarrow>
      (blacklist_matches e c \<longleftrightarrow> ep_domain c = ''example.com'') \<and>
      (ep_domain c = ''other.com'' \<longrightarrow> \<not> blacklist_matches e c))"
  by (auto simp: blacklist_matches_def field_matches_def split: option.splits)

text \<open>
  The entry with only its domain populated, against three candidates.
\<close>

theorem blacklist_wildcard_matching_witness:
  "blacklist_matches only_domain candidate \<and>
   blacklist_matches only_domain (candidate\<lparr>ep_scheme := ''http'', ep_port := ''80''\<rparr>) \<and>
   \<not> blacklist_matches only_domain (candidate\<lparr>ep_domain := ''other.com''\<rparr>)"
proof -
  have h: "bl_scheme only_domain = None \<and> bl_protocol only_domain = None \<and>
           bl_domain only_domain = Some ''example.com'' \<and> bl_port only_domain = None"
    by (simp add: only_domain_def)
  have d: "ep_domain candidate = ''example.com''"
    "ep_domain (candidate\<lparr>ep_scheme := ''http'', ep_port := ''80''\<rparr>) = ''example.com''"
    "ep_domain (candidate\<lparr>ep_domain := ''other.com''\<rparr>) = ''other.com''"
    by (simp_all add: candidate_def)
  note T = blacklist_wildcard_matching [of only_domain, THEN conjunct2, rule_format, OF h]
  from T [of candidate] d(1) have a: "blacklist_matches only_domain candidate" by blast
  from T [of "candidate\<lparr>ep_scheme := ''http'', ep_port := ''80''\<rparr>"] d(2)
  have b: "blacklist_matches only_domain (candidate\<lparr>ep_scheme := ''http'', ep_port := ''80''\<rparr>)"
    by blast
  from T [of "candidate\<lparr>ep_domain := ''other.com''\<rparr>"] d(3)
  have c: "\<not> blacklist_matches only_domain (candidate\<lparr>ep_domain := ''other.com''\<rparr>)"
    by blast
  from a b c show ?thesis by simp
qed

section \<open>Handshake expiry\<close>

text \<open>
  Claim C5. A request created at time T expires at T plus ten minutes; a lookup
  strictly before that instant finds it, a lookup at that instant or later reports not
  found.
\<close>

theorem handshake_expiry_boundary:
  "ar_expires (AuthenticationRequest_new T app s f) = T + 600000000 \<and>
   (store rid = Some (AuthenticationRequest_new T app s f) \<longrightarrow>
      (now < T + 600000000 \<longrightarrow>
         lookup store now rid = Inr (AuthenticationRequest_new T app s f)) \<and>
      (T + 600000000 \<le> now \<longrightarrow> lookup store now rid = Inl DoesNotExist))"
  by (simp add: AuthenticationRequest_new_def expires_default_def timedelta_minutes_def
        lookup_def expireAfterSeconds_def)

text \<open>
  A request created at time 0, looked up after 9 minutes 59 seconds, after exactly 10
  minutes, and a microsecond later.
\<close>

theorem handshake_expiry_boundary_witness:
  "ar_expires (AuthenticationRequest_new 0 7 ''ok'' ''fail'') = 600000000 \<and>
   lookup [5 \<mapsto> AuthenticationRequest_new 0 7 ''ok'' ''fail''] 599000000 5
     = Inr (AuthenticationRequest_new 0 7 ''ok'' ''fail'') \<and>
   lookup [5 \<mapsto> AuthenticationRequest_new 0 7 ''ok'' ''fail''] 600000000 5 = Inl DoesNotExist \<and>
   lookup [5 \<mapsto> AuthenticationRequest_new 0 7 ''ok'' ''fail''] 600000001 5 = Inl DoesNotExist"
proof -
  let ?r = "AuthenticationRequest_new 0 7 ''ok'' ''fail''"
  have st: "[5 \<mapsto> ?r] (5::nat) = Some ?r" by simp
  note T = handshake_expiry_boundary [of 0 7 "''ok''" "''fail''" "[5 \<mapsto> ?r]" 5]
  from T [of 599000000] st have a: "lookup [5 \<mapsto> ?r] 599000000 5 = Inr ?r" by simp
  from T [of 600000000] st have b: "lookup [5 \<mapsto> ?r] 600000000 5 = Inl DoesNotExist" by simp
  from T [of 600000001] st have c: "lookup [5 \<mapsto> ?r] 600000001 5 = Inl DoesNotExist" by simp
  from T [of 0] have d: "ar_expires ?r = 600000000" by simp
  from a b c d show ?thesis by simp
qed

end
